theory Spec2Isabelle
  imports Complex_Main "HOL-Library.Multiset"
begin

section \<open>JavaScript values\<close>

text \<open>
  The aggregator of \<^verbatim>\<open>src/utils.js\<close> passes plain JavaScript values around: parsed JSON
  documents, the object built by \<^verbatim>\<open>getPlayerData\<close>, the cached snapshot. They are modelled
  by one datatype. Numbers are exact rationals (the rounding of IEEE doubles is not
  modelled); an object is the list of its own properties in insertion order.
\<close>

datatype jsval =
    JUndefined
  | JNull
  | JBool bool
  | JNum rat
  | JStr string
  | JArr "jsval list"
  | JObj "(string \<times> jsval) list"

text \<open>The truthiness test of \<^verbatim>\<open>if (x)\<close>, \<^verbatim>\<open>x && y\<close> and \<^verbatim>\<open>!x\<close>.\<close>

fun truthy :: "jsval \<Rightarrow> bool" where
  "truthy JUndefined = False"
| "truthy JNull = False"
| "truthy (JBool b) = b"
| "truthy (JNum n) = (n \<noteq> 0)"
| "truthy (JStr s) = (s \<noteq> [])"
| "truthy (JArr xs) = True"
| "truthy (JObj kvs) = True"

text \<open>
  Reading a property \<^verbatim>\<open>v.k\<close> where \<^verbatim>\<open>k\<close> is a plain name (\<^verbatim>\<open>stats\<close>, \<^verbatim>\<open>data\<close>,
  \<^verbatim>\<open>merged\<close>, ...): an object gives the stored value or \<^verbatim>\<open>undefined\<close>; a number, string,
  boolean or array has no such property. On \<^verbatim>\<open>null\<close> and \<^verbatim>\<open>undefined\<close> JavaScript throws;
  the code below only reads properties behind a truthiness guard, so that case is never
  reached and is given \<^verbatim>\<open>undefined\<close> here.
\<close>

fun get_prop :: "jsval \<Rightarrow> string \<Rightarrow> jsval" where
  "get_prop (JObj kvs) k = (case map_of kvs k of None \<Rightarrow> JUndefined | Some v \<Rightarrow> v)"
| "get_prop v k = JUndefined"


text \<open>Storing a property: an existing key keeps its place, a new key goes last.\<close>

fun assign :: "string \<Rightarrow> jsval \<Rightarrow> (string \<times> jsval) list \<Rightarrow> (string \<times> jsval) list" where
  "assign k v [] = [(k, v)]"
| "assign k v ((k', v') # kvs) =
     (if k' = k then (k, v) # kvs else (k', v') # assign k v kvs)"

fun set_prop :: "jsval \<Rightarrow> string \<Rightarrow> jsval \<Rightarrow> jsval" where
  "set_prop (JObj kvs) k v = JObj (assign k v kvs)"
| "set_prop x k v = x"

text \<open>Decimal property names of array and string indices.\<close>

fun decimal :: "nat \<Rightarrow> string" where
  "decimal n =
     (if n < 10 then [char_of (48 + n)] else decimal (n div 10) @ [char_of (48 + n mod 10)])"

text \<open>
  The own enumerable properties that an object spread \<^verbatim>\<open>{...v}\<close> copies: those of an
  object, the indices of an array or of a string, nothing for the other values.
\<close>

fun own_props :: "jsval \<Rightarrow> (string \<times> jsval) list" where
  "own_props (JObj kvs) = kvs"
| "own_props (JArr xs) = map (\<lambda>i. (decimal i, xs ! i)) [0 ..< length xs]"
| "own_props (JStr s) = map (\<lambda>i. (decimal i, JStr [s ! i])) [0 ..< length s]"
| "own_props v = []"

text \<open>\<^verbatim>\<open>a && b\<close> on two strings: the empty string is falsy.\<close>

definition and_str :: "string \<Rightarrow> string \<Rightarrow> string" where
  "and_str a b = (if a = [] then a else b)"

section \<open>Promises, errors, effects\<close>

datatype error = FsError string | SyntaxError | TypeError | RequestError

text \<open>
  How a promise ends: resolved with a value, rejected with a reason (\<open>None\<close> is the bare
  \<^verbatim>\<open>reject()\<close>, whose reason is \<^verbatim>\<open>undefined\<close>), or never settled.
\<close>

datatype 'a promise = Resolved 'a | Rejected "error option" | Pending

datatype effect =
    Request string
  | EnsureDir string
  | Download string string
  | WriteJSON string jsval

section \<open>The environment: configuration, files, external services\<close>

record bukkit =
  firstPlayed :: "int option"
  lastPlayed :: "int option"

text \<open>
  The tags \<^verbatim>\<open>getPlayerData\<close> selects under the root of a decoded player file; \<open>None\<close> is a
  tag that is not there (\<^verbatim>\<open>select\<close> returns \<^verbatim>\<open>null\<close>).
\<close>

record nbt =
  ticksLived :: "int option"
  bukkit :: "bukkit option"

datatype content = Json jsval | Nbt nbt | Opaque

record entry =
  name :: string
  changedToAt :: "int option"

text \<open>
  The body of a name-history response: falsy (the empty body of a 204), the JSON array
  of \<^verbatim>\<open>{name, changedToAt?}\<close>, or another truthy value that is not an array.
\<close>

datatype body = NoBody | NameList "entry list" | OtherBody

datatype response = Responds body | Fails

text \<open>
  \<open>mergeStats\<close> and \<open>defaultSkin\<close> come from \<^verbatim>\<open>./helper\<close>, which is not part of the
  sources at hand: they are parameters. \<open>render_stats\<close> and \<open>render_advancements\<close> are
  \<open>None\<close> when the configuration leaves them out.
\<close>

record env =
  render_stats :: "string option"
  render_advancements :: "string option"
  render_playerdata :: string
  render_output :: string
  api_ratelimit :: nat
  fs :: "string \<Rightarrow> content option"
  ensureDir_fails :: "string \<Rightarrow> bool"
  axios_get :: "string \<Rightarrow> response"
  now :: int
  mergeStats :: "jsval \<Rightarrow> jsval"
  defaultSkin :: "string \<Rightarrow> string"

text \<open>\<^verbatim>\<open>path.join\<close> on two segments, without the normalisation of the result.\<close>

definition path_join :: "string \<Rightarrow> string \<Rightarrow> string" where
  "path_join a b = a @ ''/'' @ b"

text \<open>\<^verbatim>\<open>uuid.replace(/-/g, '')\<close>\<close>

definition strip_dashes :: "string \<Rightarrow> string" where
  "strip_dashes s = filter (\<lambda>c. c \<noteq> CHR ''-'') s"

definition existsSync :: "env \<Rightarrow> string \<Rightarrow> bool" where
  "existsSync e p = (fs e p \<noteq> None)"

definition readFileSync :: "env \<Rightarrow> string \<Rightarrow> error + content" where
  "readFileSync e p = (case fs e p of None \<Rightarrow> Inl (FsError p) | Some f \<Rightarrow> Inr f)"

definition JSON_parse :: "content \<Rightarrow> error + jsval" where
  "JSON_parse f = (case f of Json v \<Rightarrow> Inr v | _ \<Rightarrow> Inl SyntaxError)"

definition loadFromZlibCompressedFile :: "env \<Rightarrow> string \<Rightarrow> error + nbt" where
  "loadFromZlibCompressedFile e p =
     (case fs e p of Some (Nbt t) \<Rightarrow> Inr t | _ \<Rightarrow> Inl (FsError p))"

section \<open>The rate limiter of getMojangAPI\<close>

text \<open>
  \<^verbatim>\<open>getMojangAPI\<close> suspends at \<^verbatim>\<open>await delay(10)\<close> and at \<^verbatim>\<open>await axios.get\<close>, and it
  leaves a timer behind. Calls of several players interleave at these points on one
  thread, so the function is modelled as a machine: each call is in one of the states
  below, and an event runs the code between two suspension points.
\<close>

datatype call =
    Idle
  | Waiting string nat
  | InFlight string
  | Returned body
  | Threw error

text \<open>
  \<open>apiLimited\<close> is the flag of the \<^verbatim>\<open>Utils\<close> instance; \<open>timers\<close> are the pending
  \<^verbatim>\<open>setTimeout\<close> callbacks that clear it, each with the delay in milliseconds it was
  scheduled with; \<open>sent\<close> logs every \<^verbatim>\<open>axios.get\<close> with the call that issued it.
\<close>

record limiter =
  apiLimited :: bool
  timers :: "nat list"
  calls :: "nat \<Rightarrow> call"
  sent :: "(nat \<times> string) list"

text \<open>The constructor: \<^verbatim>\<open>this.apiLimited = false\<close>, nothing pending.\<close>

definition fresh :: limiter where
  "fresh = \<lparr>apiLimited = False, timers = [], calls = (\<lambda>c. Idle), sent = []\<rparr>"

text \<open>
  The entry of \<^verbatim>\<open>getMojangAPI\<close> up to its first \<^verbatim>\<open>await\<close>: with a truthy rate limit and
  the flag set, \<^verbatim>\<open>delay(10)\<close>; otherwise set the flag and issue the request.
\<close>

definition enter :: "nat \<Rightarrow> nat \<Rightarrow> string \<Rightarrow> limiter \<Rightarrow> limiter" where
  "enter ratelimit c apiPath st =
     (if ratelimit \<noteq> 0 \<and> apiLimited st
      then st\<lparr>calls := (calls st)(c := Waiting apiPath 10)\<rparr>
      else st\<lparr>apiLimited := True,
              calls := (calls st)(c := InFlight apiPath),
              sent := sent st @ [(c, apiPath)]\<rparr>)"

datatype event =
    Call nat string
  | Wake nat
  | Respond nat response
  | Fire nat

text \<open>
  \<open>Call c p\<close>: call \<open>c\<close> starts. \<open>Wake c\<close>: its \<^verbatim>\<open>delay(10)\<close> is over and it calls
  \<^verbatim>\<open>this.getMojangAPI(apiPath)\<close> again. \<open>Respond c r\<close>: its request ends; an unlock timer
  of \<^verbatim>\<open>ratelimit * 1000\<close> (success) or \<^verbatim>\<open>ratelimit * 3000\<close> (failure, then \<^verbatim>\<open>throw\<close>) is
  set. \<open>Fire i\<close>: the \<open>i\<close>-th pending timer runs \<^verbatim>\<open>this.apiLimited = false\<close>. An event
  that does not apply to the state changes nothing.
\<close>

fun step :: "nat \<Rightarrow> event \<Rightarrow> limiter \<Rightarrow> limiter" where
  "step ratelimit (Call c apiPath) st =
     (case calls st c of Idle \<Rightarrow> enter ratelimit c apiPath st | _ \<Rightarrow> st)"
| "step ratelimit (Wake c) st =
     (case calls st c of Waiting apiPath d \<Rightarrow> enter ratelimit c apiPath st | _ \<Rightarrow> st)"
| "step ratelimit (Respond c r) st =
     (case calls st c of
        InFlight apiPath \<Rightarrow>
          (case r of
             Fails \<Rightarrow>
               st\<lparr>timers := timers st @ [ratelimit * 3000],
                  calls := (calls st)(c := Threw RequestError)\<rparr>
           | Responds b \<Rightarrow>
               st\<lparr>timers := timers st @ [ratelimit * 1000],
                  calls := (calls st)(c := Returned b)\<rparr>)
      | _ \<Rightarrow> st)"
| "step ratelimit (Fire i) st =
     (if i < length (timers st)
      then st\<lparr>apiLimited := False, timers := take i (timers st) @ drop (Suc i) (timers st)\<rparr>
      else st)"

fun run :: "nat \<Rightarrow> event list \<Rightarrow> limiter \<Rightarrow> limiter" where
  "run ratelimit [] st = st"
| "run ratelimit (ev # evs) st = run ratelimit evs (step ratelimit ev st)"

definition in_flight :: "limiter \<Rightarrow> nat \<Rightarrow> bool" where
  "in_flight st c = (case calls st c of InFlight apiPath \<Rightarrow> True | _ \<Rightarrow> False)"

text \<open>
  One call on a fresh instance with no other call around, as a single
  \<^verbatim>\<open>createPlayerData\<close> makes it: the call enters, its request ends with \<open>r\<close>.
\<close>

definition getMojangAPI :: "nat \<Rightarrow> string \<Rightarrow> response \<Rightarrow> limiter" where
  "getMojangAPI ratelimit apiPath r = run ratelimit [Call 0 apiPath, Respond 0 r] fresh"

section \<open>Name history\<close>

text \<open>\<^verbatim>\<open>(x.changedToAt || 0)\<close>\<close>

definition changedToAt_or0 :: "entry \<Rightarrow> int" where
  "changedToAt_or0 x = (case changedToAt x of None \<Rightarrow> 0 | Some t \<Rightarrow> if t = 0 then 0 else t)"

text \<open>The comparator \<^verbatim>\<open>(a, b) => (b.changedToAt || 0) - (a.changedToAt || 0)\<close>.\<close>

definition by_changedToAt_desc :: "entry \<Rightarrow> entry \<Rightarrow> int" where
  "by_changedToAt_desc a b = changedToAt_or0 b - changedToAt_or0 a"

text \<open>
  \<^verbatim>\<open>Array.prototype.sort\<close> is stable and orders by the sign of the comparator. With a
  consistent comparator the result is determined, so it is computed here by a stable
  insertion sort.
\<close>

fun insert_sorted :: "('a \<Rightarrow> 'a \<Rightarrow> int) \<Rightarrow> 'a \<Rightarrow> 'a list \<Rightarrow> 'a list" where
  "insert_sorted cmp x [] = [x]"
| "insert_sorted cmp x (y # ys) =
     (if cmp x y \<le> 0 then x # y # ys else y # insert_sorted cmp x ys)"

definition array_sort :: "('a \<Rightarrow> 'a \<Rightarrow> int) \<Rightarrow> 'a list \<Rightarrow> 'a list" where
  "array_sort cmp xs = foldr (insert_sorted cmp) xs []"

text \<open>
  \<^verbatim>\<open>getNameHistory\<close>: \<open>Resolved None\<close> is the \<^verbatim>\<open>null\<close> it returns when the lookup threw or
  the body is falsy. A truthy body that is no array has no \<^verbatim>\<open>sort\<close>: the call throws.
\<close>

definition getNameHistory :: "env \<Rightarrow> string \<Rightarrow> effect list \<times> entry list option promise" where
  "getNameHistory e uuid =
     (let apiNameHistory = ''https://api.mojang.com/user/profiles/'' @ uuid @ ''/names'';
          st = getMojangAPI (api_ratelimit e) apiNameHistory (axios_get e apiNameHistory);
          eff = map (\<lambda>(c, p). Request p) (sent st)
      in case calls st 0 of
           Threw err \<Rightarrow> (eff, Resolved None)
         | Returned NoBody \<Rightarrow> (eff, Resolved None)
         | Returned (NameList history) \<Rightarrow>
             (eff, Resolved (Some (array_sort by_changedToAt_desc history)))
         | Returned OtherBody \<Rightarrow> (eff, Rejected (Some TypeError))
         | _ \<Rightarrow> (eff, Pending))"

section \<open>Reading the player's files\<close>

definition entry_js :: "entry \<Rightarrow> jsval" where
  "entry_js x =
     JObj ((''name'', JStr (name x)) #
           (case changedToAt x of None \<Rightarrow> [] | Some t \<Rightarrow> [(''changedToAt'', JNum (of_int t))]))"

text \<open>
  \<^verbatim>\<open>getPlayerState\<close>: rejects without a reason when the statistics directory is not
  configured or the file cannot be read; a file that is not JSON makes \<^verbatim>\<open>JSON.parse\<close>
  throw inside the executor, which rejects the promise with that error.
\<close>

definition getPlayerState :: "env \<Rightarrow> string \<Rightarrow> jsval promise" where
  "getPlayerState e uuid =
     (case render_stats e of
        None \<Rightarrow> Rejected None
      | Some dir \<Rightarrow>
          if dir = [] then Rejected None
          else
            (let statsfile = path_join dir (uuid @ ''.json'') in
             case readFileSync e statsfile of
               Inl err \<Rightarrow> Rejected None
             | Inr f \<Rightarrow>
                 (case JSON_parse f of
                    Inl err \<Rightarrow> Rejected (Some err)
                  | Inr d \<Rightarrow>
                      Resolved (JObj [(''merged'', mergeStats e d), (''source'', d)]))))"

definition getPlayerAdvancements :: "env \<Rightarrow> string \<Rightarrow> jsval promise" where
  "getPlayerAdvancements e uuid =
     (case render_advancements e of
        None \<Rightarrow> Rejected None
      | Some dir \<Rightarrow>
          if dir = [] then Rejected None
          else
            (let advancementsfile = path_join dir (uuid @ ''.json'') in
             case readFileSync e advancementsfile of
               Inl err \<Rightarrow> Rejected None
             | Inr f \<Rightarrow>
                 (case JSON_parse f of
                    Inl err \<Rightarrow> Rejected (Some err)
                  | Inr d \<Rightarrow> Resolved d)))"

text \<open>
  \<^verbatim>\<open>getPlayerData\<close>. The callback of the decoder is an \<^verbatim>\<open>async\<close> function: when
  \<^verbatim>\<open>select('bukkit')\<close>, \<^verbatim>\<open>select('firstPlayed')\<close> or \<^verbatim>\<open>select('lastPlayed')\<close> is \<^verbatim>\<open>null\<close>, the
  \<^verbatim>\<open>TypeError\<close> rejects the promise of the callback, which nobody awaits, and the promise
  that \<^verbatim>\<open>getPlayerData\<close> returned is never settled.
\<close>

definition getPlayerData :: "env \<Rightarrow> string \<Rightarrow> effect list \<times> jsval promise" where
  "getPlayerData e uuid =
     (let datafile = path_join (render_playerdata e) (uuid @ ''.dat'') in
      case loadFromZlibCompressedFile e datafile of
        Inl err \<Rightarrow> ([], Rejected None)
      | Inr t \<Rightarrow>
          (let uuidShort = strip_dashes uuid;
               (eff, h) = getNameHistory e uuidShort
           in case h of
                Rejected err \<Rightarrow> (eff, Rejected None)
              | Pending \<Rightarrow> (eff, Pending)
              | Resolved None \<Rightarrow> (eff, Rejected None)
              | Resolved (Some []) \<Rightarrow> (eff, Rejected None)
              | Resolved (Some (h0 # hs)) \<Rightarrow>
                  (let lived = (case ticksLived t of
                                  None \<Rightarrow> JStr []
                                | Some ticks \<Rightarrow> JNum (of_int ticks / 20))
                   in case bukkit t of
                        None \<Rightarrow> (eff, Pending)
                      | Some b \<Rightarrow>
                          (case firstPlayed b of
                             None \<Rightarrow> (eff, Pending)
                           | Some timeStart \<Rightarrow>
                               (case lastPlayed b of
                                  None \<Rightarrow> (eff, Pending)
                                | Some timeLast \<Rightarrow>
                                    (eff, Resolved (JObj
                                       [(''seen'', JNum (of_int timeLast)),
                                        (''time_start'', JNum (of_int timeStart)),
                                        (''time_last'', JNum (of_int timeLast)),
                                        (''time_lived'', lived),
                                        (''playername'', JStr (name h0)),
                                        (''names'', JArr (map entry_js (h0 # hs))),
                                        (''uuid_short'', JStr uuidShort),
                                        (''lastUpdate'', JNum (of_int (now e))),
                                        (''uuid'', JStr uuid)])))))))"

text \<open>
  \<^verbatim>\<open>getPlayerTotalData\<close>: the three reads in sequence inside one \<^verbatim>\<open>try\<close>; any rejection
  gives \<^verbatim>\<open>null\<close>. An awaited promise that never settles leaves this one unsettled too.
\<close>

definition getPlayerTotalData :: "env \<Rightarrow> string \<Rightarrow> effect list \<times> jsval promise" where
  "getPlayerTotalData e uuid =
     (case getPlayerState e uuid of
        Rejected err \<Rightarrow> ([], Resolved JNull)
      | Pending \<Rightarrow> ([], Pending)
      | Resolved s \<Rightarrow>
          (let stats = get_prop s ''merged'';
               stats_source = get_prop s ''source''
           in case getPlayerAdvancements e uuid of
                Rejected err \<Rightarrow> ([], Resolved JNull)
              | Pending \<Rightarrow> ([], Pending)
              | Resolved advancements \<Rightarrow>
                  (case getPlayerData e uuid of
                     (eff, Rejected err) \<Rightarrow> (eff, Resolved JNull)
                   | (eff, Pending) \<Rightarrow> (eff, Pending)
                   | (eff, Resolved data) \<Rightarrow>
                       (eff, Resolved (JObj
                          [(''stats'', stats),
                           (''stats_source'', stats_source),
                           (''advancements'', advancements),
                           (''data'', data)])))))"

section \<open>Assets and the cached snapshot\<close>

text \<open>
  \<^verbatim>\<open>getPlayerAssets\<close>: throws when the directory cannot be made; otherwise starts the
  three downloads (\<open>download\<close> is from \<^verbatim>\<open>./helper\<close>; the call is recorded).
\<close>

definition getPlayerAssets :: "env \<Rightarrow> string \<Rightarrow> string \<Rightarrow> effect list \<times> (error + unit)" where
  "getPlayerAssets e uuid playerpath =
     (if ensureDir_fails e playerpath
      then ([EnsureDir playerpath], Inl (FsError playerpath))
      else
        (let apiPrefixAvatar = ''https://crafatar.com/avatars/'';
             apiPrefixBody = ''https://crafatar.com/renders/body/'';
             apiPrefixSkin = ''https://crafatar.com/skins/'';
             slim = ''&default=MHF_'' @ defaultSkin e uuid
         in ([EnsureDir playerpath,
              Download (apiPrefixAvatar @ uuid @ ''?size=64&overlay'' @ slim)
                       (path_join playerpath ''avatar.png''),
              Download (apiPrefixBody @ uuid @ ''?size=128&overlay'' @ slim)
                       (path_join playerpath ''body.png''),
              Download (apiPrefixSkin @ uuid @ ''?'' @ slim)
                       (path_join playerpath ''skin.png'')],
             Inr ())))"

text \<open>
  \<^verbatim>\<open>createPlayerData\<close>. The argument of the second \<^verbatim>\<open>existsSync\<close> is the value of
  \<^verbatim>\<open>path.join(playerpath, 'avatar.png') && path.join(playerpath, 'body.png')\<close>.
  An error of \<^verbatim>\<open>getPlayerAssets\<close> is caught and logged. \<open>writeJSON\<close> is from
  \<^verbatim>\<open>./helper\<close>; the call is recorded.
\<close>

definition createPlayerData :: "env \<Rightarrow> string \<Rightarrow> bool \<Rightarrow> effect list \<times> jsval promise" where
  "createPlayerData e uuid banned =
     (let playerpath = path_join (render_output e) (strip_dashes uuid);
          (eff, loaded) =
            (if existsSync e (path_join playerpath ''stats.json'')
             then (case readFileSync e (path_join playerpath ''stats.json'') of
                     Inl err \<Rightarrow> ([], Rejected (Some err))
                   | Inr f \<Rightarrow>
                       (case JSON_parse f of
                          Inl err \<Rightarrow> ([], Rejected (Some err))
                        | Inr v \<Rightarrow> ([], Resolved v)))
             else getPlayerTotalData e uuid)
      in case loaded of
           Rejected err \<Rightarrow> (eff, Rejected err)
         | Pending \<Rightarrow> (eff, Pending)
         | Resolved data \<Rightarrow>
             if existsSync e (and_str (path_join playerpath ''avatar.png'')
                                      (path_join playerpath ''body.png''))
             then (eff, Resolved data)
             else if truthy data \<and> truthy (get_prop data ''stats'') \<and> truthy (get_prop data ''data'')
             then
               (let (aeff, assets) = getPlayerAssets e (strip_dashes uuid) playerpath;
                    data' = set_prop data ''data''
                              (JObj (assign ''banned'' (JBool banned)
                                       (own_props (get_prop data ''data''))))
                in (eff @ aeff @ [WriteJSON (path_join playerpath ''stats.json'') data'],
                    Resolved data'))
             else (eff, Rejected None))"

text \<open>The downloads among the effects of a run.\<close>

definition downloads :: "effect list \<Rightarrow> effect list" where
  "downloads effs = filter (\<lambda>x. case x of Download url dest \<Rightarrow> True | _ \<Rightarrow> False) effs"

text \<open>Whether a promise was resolved, whatever the value.\<close>

definition resolved :: "'a promise \<Rightarrow> bool" where
  "resolved p = (case p of Resolved v \<Rightarrow> True | _ \<Rightarrow> False)"

definition rejected :: "'a promise \<Rightarrow> bool" where
  "rejected p = (case p of Rejected r \<Rightarrow> True | _ \<Rightarrow> False)"

text \<open>The paths \<^verbatim>\<open>createPlayerData\<close> looks at for a player.\<close>

definition playerpath_of :: "env \<Rightarrow> string \<Rightarrow> string" where
  "playerpath_of e uuid = path_join (render_output e) (strip_dashes uuid)"

definition cache_file :: "env \<Rightarrow> string \<Rightarrow> string" where
  "cache_file e uuid = path_join (playerpath_of e uuid) ''stats.json''"

definition avatar_file :: "env \<Rightarrow> string \<Rightarrow> string" where
  "avatar_file e uuid = path_join (playerpath_of e uuid) ''avatar.png''"

definition body_file :: "env \<Rightarrow> string \<Rightarrow> string" where
  "body_file e uuid = path_join (playerpath_of e uuid) ''body.png''"

definition data_file :: "env \<Rightarrow> string \<Rightarrow> string" where
  "data_file e uuid = path_join (render_playerdata e) (uuid @ ''.dat'')"

definition names_url :: "string \<Rightarrow> string" where
  "names_url uuid = ''https://api.mojang.com/user/profiles/'' @ strip_dashes uuid @ ''/names''"

section \<open>The uuid filter of getAllPlayers\<close>

text \<open>
  The regular expression of \<^verbatim>\<open>getAllPlayers\<close> is a sequence of character classes and
  literals, each repeated a fixed number of times, between \<^verbatim>\<open>^\<close> and \<^verbatim>\<open>$\<close> (without the
  \<^verbatim>\<open>m\<close> flag: the start and the end of the input). A class is a list of ranges.
\<close>

type_synonym char_range = "char \<times> char"

datatype atom = Class "char_range list" | Lit char

text \<open>
  With the \<^verbatim>\<open>i\<close> flag both sides are canonicalised before they are compared: a character
  goes to its upper case, unless that would take a character outside ASCII into ASCII.
  For the comparison with ASCII members, which is all this pattern makes, it is enough
  to map the ASCII lower-case letters.
\<close>

definition canon_code :: "nat \<Rightarrow> nat" where
  "canon_code n = (if 97 \<le> n \<and> n \<le> 122 then n - 32 else n)"

definition canonicalize :: "bool \<Rightarrow> char \<Rightarrow> char" where
  "canonicalize ignoreCase c = (if ignoreCase then char_of (canon_code (of_char c)) else c)"

definition range_chars :: "char_range \<Rightarrow> char list" where
  "range_chars r = map char_of [of_char (fst r) ..< Suc (of_char (snd r))]"

fun atom_chars :: "atom \<Rightarrow> char list" where
  "atom_chars (Class rs) = concat (map range_chars rs)"
| "atom_chars (Lit c) = [c]"

definition atom_matches :: "bool \<Rightarrow> atom \<Rightarrow> char \<Rightarrow> bool" where
  "atom_matches ignoreCase a c =
     list_ex (\<lambda>m. canonicalize ignoreCase m = canonicalize ignoreCase c) (atom_chars a)"

text \<open>\<open>a{n}\<close>: consume exactly \<open>n\<close> characters that match \<open>a\<close>.\<close>

fun match_rep :: "bool \<Rightarrow> atom \<Rightarrow> nat \<Rightarrow> string \<Rightarrow> string option" where
  "match_rep i a 0 s = Some s"
| "match_rep i a (Suc n) [] = None"
| "match_rep i a (Suc n) (c # cs) = (if atom_matches i a c then match_rep i a n cs else None)"

fun match_seq :: "bool \<Rightarrow> (atom \<times> nat) list \<Rightarrow> string \<Rightarrow> string option" where
  "match_seq i [] s = Some s"
| "match_seq i ((a, n) # ps) s =
     (case match_rep i a n s of None \<Rightarrow> None | Some rest \<Rightarrow> match_seq i ps rest)"

text \<open>\<^verbatim>\<open>^...$\<close>: the match starts at the first character and leaves nothing.\<close>

definition regex_test :: "bool \<Rightarrow> (atom \<times> nat) list \<Rightarrow> string \<Rightarrow> bool" where
  "regex_test i ps s = (match_seq i ps s = Some [])"

definition hexdigit :: atom where
  "hexdigit = Class [(CHR ''0'', CHR ''9''), (CHR ''a'', CHR ''f'')]"

text \<open>
  \<^verbatim>\<open>/^[0-9a-f]{8}-[0-9a-f]{4}-[1-5][0-9a-f]{3}-[89ab][0-9a-f]{3}-[0-9a-f]{12}$/i\<close>
\<close>

definition uuid_pattern :: "(atom \<times> nat) list" where
  "uuid_pattern =
     [(hexdigit, 8), (Lit CHR ''-'', 1),
      (hexdigit, 4), (Lit CHR ''-'', 1),
      (Class [(CHR ''1'', CHR ''5'')], 1), (hexdigit, 3), (Lit CHR ''-'', 1),
      (Class [(CHR ''8'', CHR ''9''), (CHR ''a'', CHR ''b'')], 1), (hexdigit, 3), (Lit CHR ''-'', 1),
      (hexdigit, 12)]"

definition uuid_test :: "string \<Rightarrow> bool" where
  "uuid_test s = regex_test True uuid_pattern s"

text \<open>
  The canonical form in the words of the specification: 36 characters, a dash after the
  groups of 8, 4, 4 and 4, the version nibble (first of the third group) in 1..5, the
  variant nibble (first of the fourth group) among 8, 9, a, b, every other character a
  hexadecimal digit, letters in either case.
\<close>

definition is_hex :: "char \<Rightarrow> bool" where
  "is_hex c = (c \<in> set ''0123456789abcdefABCDEF'')"

definition is_version :: "char \<Rightarrow> bool" where
  "is_version c = (c \<in> set ''12345'')"

definition is_variant :: "char \<Rightarrow> bool" where
  "is_variant c = (c \<in> set ''89abAB'')"

definition spec_char_ok :: "nat \<Rightarrow> char \<Rightarrow> bool" where
  "spec_char_ok i c =
     (if i \<in> {8, 13, 18, 23} then c = CHR ''-''
      else if i = 14 then is_version c
      else if i = 19 then is_variant c
      else is_hex c)"

definition canonical_uuid :: "string \<Rightarrow> bool" where
  "canonical_uuid s = (length s = 36 \<and> (\<forall>i < 36. spec_char_ok i (s ! i)))"

text \<open>The pattern written out, one atom for each position.\<close>

definition expand :: "(atom \<times> nat) list \<Rightarrow> atom list" where
  "expand ps = concat (map (\<lambda>(a, n). replicate n a) ps)"

section \<open>A sample player\<close>

definition demo_uuid :: string where
  "demo_uuid = ''123e4567-e89b-12d3-a456-426614174000''"

definition demo_names :: "entry list" where
  "demo_names =
     [\<lparr>name = ''first'', changedToAt = None\<rparr>,
      \<lparr>name = ''third'', changedToAt = Some 1500000000000\<rparr>,
      \<lparr>name = ''second'', changedToAt = Some 1400000000000\<rparr>]"

definition demo_nbt :: nbt where
  "demo_nbt =
     \<lparr>ticksLived = Some 72000,
      bukkit = Some \<lparr>firstPlayed = Some 1300000000000, lastPlayed = Some 1550000000000\<rparr>\<rparr>"

definition stats_entry :: "string \<times> content" where
  "stats_entry =
     (''stats/123e4567-e89b-12d3-a456-426614174000.json'', Json (JObj [(''stat.jump'', JNum 5)]))"

definition advancements_entry :: "string \<times> content" where
  "advancements_entry =
     (''advancements/123e4567-e89b-12d3-a456-426614174000.json'', Json (JObj []))"

definition dat_entry :: "nbt \<Rightarrow> string \<times> content" where
  "dat_entry t = (''playerdata/123e4567-e89b-12d3-a456-426614174000.dat'', Nbt t)"

text \<open>A snapshot as an earlier run with \<^verbatim>\<open>banned = false\<close> wrote it.\<close>

definition cached_snapshot :: jsval where
  "cached_snapshot =
     JObj [(''stats'', JObj [(''stat.jump'', JNum 5)]),
           (''stats_source'', JObj [(''stat.jump'', JNum 5)]),
           (''advancements'', JObj []),
           (''data'', JObj [(''playername'', JStr ''third''),
                           (''uuid'', JStr ''123e4567-e89b-12d3-a456-426614174000''),
                           (''banned'', JBool False)])]"

definition cache_entry :: "string \<times> content" where
  "cache_entry = (''out/123e4567e89b12d3a456426614174000/stats.json'', Json cached_snapshot)"

definition avatar_entry :: "string \<times> content" where
  "avatar_entry = (''out/123e4567e89b12d3a456426614174000/avatar.png'', Opaque)"

definition body_entry :: "string \<times> content" where
  "body_entry = (''out/123e4567e89b12d3a456426614174000/body.png'', Opaque)"

text \<open>The server with the given files; the name service answers with \<open>demo_names\<close>.\<close>

definition demo_env :: "(string \<times> content) list \<Rightarrow> env" where
  "demo_env files =
     \<lparr>render_stats = Some ''stats'',
      render_advancements = Some ''advancements'',
      render_playerdata = ''playerdata'',
      render_output = ''out'',
      api_ratelimit = 1,
      fs = map_of files,
      ensureDir_fails = (\<lambda>p. False),
      axios_get = (\<lambda>url. Responds (NameList demo_names)),
      now = 1600000000000,
      mergeStats = (\<lambda>d. d),
      defaultSkin = (\<lambda>u. ''Steve'')\<rparr>"

text \<open>The value a promise was resolved with (\<^verbatim>\<open>undefined\<close> if it was not).\<close>

definition settled_value :: "jsval promise \<Rightarrow> jsval" where
  "settled_value p = (case p of Resolved v \<Rightarrow> v | _ \<Rightarrow> JUndefined)"

text \<open>The three source files of the sample player, with the given decoded player file.\<close>

definition sources :: "nbt \<Rightarrow> (string \<times> content) list" where
  "sources t = [stats_entry, advancements_entry, dat_entry t]"

section \<open>Auxiliary notions for the proofs\<close>

text \<open>
  What holds of the limiter in every state a non-zero rate limit can reach: at most one
  request is in flight; while one is, the flag is set and no unlock timer is pending; at
  most one timer is pending, and only with the flag set.
\<close>

definition limiter_inv :: "limiter \<Rightarrow> bool" where
  "limiter_inv st =
     ((\<forall>c c'. in_flight st c \<and> in_flight st c' \<longrightarrow> c = c') \<and>
      (\<forall>c. in_flight st c \<longrightarrow> timers st = [] \<and> apiLimited st) \<and>
      length (timers st) \<le> 1 \<and>
      (timers st \<noteq> [] \<longrightarrow> apiLimited st))"

text \<open>The requests a call has issued so far.\<close>

definition sent_by :: "nat \<Rightarrow> limiter \<Rightarrow> string list" where
  "sent_by c st = map snd (filter (\<lambda>x. fst x = c) (sent st))"

section \<open>The uuid filter: the pattern against the canonical form\<close>

lemma canon_code_lt: "n < 256 \<Longrightarrow> canon_code n < 256"
  by (auto simp: canon_code_def)

lemma canonicalize_eq_iff:
  "canonicalize True m = canonicalize True c \<longleftrightarrow>
     canon_code (of_char m) = canon_code (of_char c)"
  by (simp add: canonicalize_def char_of_eq_iff canon_code_lt take_bit_eq_mod)

lemma mod_256_le_of_char: "n \<le> of_char (b::char) \<Longrightarrow> n mod 256 = (n::nat)"
  using le_less_trans [OF _ nat_of_char_less_256] by simp

lemma range_chars_ex:
  "(\<exists>m \<in> set (range_chars r). canon_code (of_char m) = x) \<longleftrightarrow>
     (\<exists>n. of_char (fst r) \<le> n \<and> n \<le> of_char (snd r) \<and> canon_code n = x)"
  (is "?L \<longleftrightarrow> ?R")
proof
  assume ?L
  then obtain n :: nat where n: "of_char (fst r) \<le> n" "n \<le> of_char (snd r)"
    and x: "canon_code (of_char (char_of n)) = x"
    by (auto simp: range_chars_def less_Suc_eq_le simp del: of_char_of)
  from n(2) have "of_char (char_of n) = n"
    by (simp add: mod_256_le_of_char)
  with n x show ?R by auto
next
  assume ?R
  then obtain n :: nat where n: "of_char (fst r) \<le> n" "n \<le> of_char (snd r)"
    and x: "canon_code n = x"
    by blast
  from n have "n \<in> set [of_char (fst r) ..< Suc (of_char (snd r))]"
    by (simp del: upt_Suc)
  then have "char_of n \<in> set (range_chars r)"
    unfolding range_chars_def set_map by (rule imageI)
  moreover from n(2) x have "canon_code (of_char (char_of n)) = x"
    by (simp add: mod_256_le_of_char)
  ultimately show ?L by blast
qed

lemma atom_matches_Class:
  "atom_matches True (Class rs) c \<longleftrightarrow>
     (\<exists>r \<in> set rs. \<exists>n. of_char (fst r) \<le> n \<and> n \<le> of_char (snd r) \<and>
        canon_code n = canon_code (of_char c))"
  by (simp add: atom_matches_def list_ex_iff canonicalize_eq_iff range_chars_ex)

lemma atom_matches_Lit:
  "atom_matches True (Lit d) c \<longleftrightarrow> canon_code (of_char d) = canon_code (of_char c)"
  by (simp add: atom_matches_def canonicalize_eq_iff)

lemma char_eq_code: "c = d \<longleftrightarrow> (of_char c :: nat) = of_char d"
  by simp

lemma hexdigit_iff:
  "atom_matches True hexdigit c \<longleftrightarrow> is_hex c"
proof -
  define k where "k = (of_char c :: nat)"
  have "atom_matches True hexdigit c \<longleftrightarrow>
    (\<exists>n. 48 \<le> n \<and> n \<le> 57 \<and> canon_code n = canon_code k) \<or>
    (\<exists>n. 97 \<le> n \<and> n \<le> 102 \<and> canon_code n = canon_code k)"
    by (simp add: hexdigit_def atom_matches_Class k_def)
  also have "\<dots> \<longleftrightarrow> (48 \<le> k \<and> k \<le> 57) \<or> (97 \<le> k \<and> k \<le> 102) \<or> (65 \<le> k \<and> k \<le> 70)"
    unfolding canon_code_def by presburger
  also have "\<dots> \<longleftrightarrow> is_hex c"
    unfolding is_hex_def set_simps insert_iff empty_iff char_eq_code [of c] k_def [symmetric]
    by (simp) presburger
  finally show ?thesis .
qed


lemma version_iff:
  "atom_matches True (Class [(CHR ''1'', CHR ''5'')]) c \<longleftrightarrow> is_version c"
proof -
  define k where "k = (of_char c :: nat)"
  have "atom_matches True (Class [(CHR ''1'', CHR ''5'')]) c \<longleftrightarrow>
    (\<exists>n. 49 \<le> n \<and> n \<le> 53 \<and> canon_code n = canon_code k)"
    by (simp add: atom_matches_Class k_def)
  also have "\<dots> \<longleftrightarrow> (49 \<le> k \<and> k \<le> 53)"
    unfolding canon_code_def by presburger
  also have "\<dots> \<longleftrightarrow> is_version c"
    unfolding is_version_def set_simps insert_iff empty_iff char_eq_code [of c] k_def [symmetric]
    by (simp) presburger
  finally show ?thesis .
qed

lemma variant_iff:
  "atom_matches True (Class [(CHR ''8'', CHR ''9''), (CHR ''a'', CHR ''b'')]) c \<longleftrightarrow>
     is_variant c"
proof -
  define k where "k = (of_char c :: nat)"
  have "atom_matches True (Class [(CHR ''8'', CHR ''9''), (CHR ''a'', CHR ''b'')]) c \<longleftrightarrow>
    (\<exists>n. 56 \<le> n \<and> n \<le> 57 \<and> canon_code n = canon_code k) \<or>
    (\<exists>n. 97 \<le> n \<and> n \<le> 98 \<and> canon_code n = canon_code k)"
    by (simp add: atom_matches_Class k_def)
  also have "\<dots> \<longleftrightarrow> (56 \<le> k \<and> k \<le> 57) \<or> (97 \<le> k \<and> k \<le> 98) \<or> (65 \<le> k \<and> k \<le> 66)"
    unfolding canon_code_def by presburger
  also have "\<dots> \<longleftrightarrow> is_variant c"
    unfolding is_variant_def set_simps insert_iff empty_iff char_eq_code [of c] k_def [symmetric]
    by (simp) presburger
  finally show ?thesis .
qed

lemma dash_iff: "atom_matches True (Lit CHR ''-'') c \<longleftrightarrow> c = CHR ''-''"
proof -
  define k where "k = (of_char c :: nat)"
  have "atom_matches True (Lit CHR ''-'') c \<longleftrightarrow> canon_code 45 = canon_code k"
    by (simp add: atom_matches_Lit k_def)
  also have "\<dots> \<longleftrightarrow> k = 45"
    unfolding canon_code_def by presburger
  also have "\<dots> \<longleftrightarrow> c = CHR ''-''"
    unfolding char_eq_code [of c] k_def [symmetric] by simp
  finally show ?thesis .
qed

lemma match_rep_iff:
  "match_rep i a n s = Some r \<longleftrightarrow>
     (\<exists>pre. s = pre @ r \<and> list_all2 (\<lambda>b c. atom_matches i b c) (replicate n a) pre)"
proof (induction i a n s rule: match_rep.induct)
  case (1 i a s)
  then show ?case by auto
next
  case (2 i a n)
  then show ?case by (auto simp: list_all2_Cons1)
next
  case (3 i a n c cs)
  then show ?case
    by (auto simp: list_all2_Cons1 Cons_eq_append_conv)
qed

lemma match_seq_iff:
  "match_seq i ps s = Some r \<longleftrightarrow>
     (\<exists>pre. s = pre @ r \<and> list_all2 (\<lambda>b c. atom_matches i b c) (expand ps) pre)"
proof (induction ps arbitrary: s)
  case Nil
  then show ?case by (auto simp: expand_def)
next
  case (Cons p ps)
  obtain a n where p: "p = (a, n)" by (cases p)
  have "match_seq i (p # ps) s = Some r \<longleftrightarrow>
        (\<exists>mid. match_rep i a n s = Some mid \<and> match_seq i ps mid = Some r)"
    by (simp add: p split: option.splits)
  also have "\<dots> \<longleftrightarrow> (\<exists>p1 p2. s = p1 @ p2 @ r \<and>
        list_all2 (\<lambda>b c. atom_matches i b c) (replicate n a) p1 \<and>
        list_all2 (\<lambda>b c. atom_matches i b c) (expand ps) p2)"
    unfolding match_rep_iff Cons.IH by blast
  also have "\<dots> \<longleftrightarrow> (\<exists>pre. s = pre @ r \<and>
        list_all2 (\<lambda>b c. atom_matches i b c) (expand (p # ps)) pre)"
  proof -
    have e: "expand (p # ps) = replicate n a @ expand ps"
      by (simp add: expand_def p)
    show ?thesis
      unfolding e list_all2_append1
      by (metis append.assoc list_all2_lengthD)
  qed
  finally show ?case .
qed

lemma regex_test_iff:
  "regex_test i ps s \<longleftrightarrow> list_all2 (\<lambda>b c. atom_matches i b c) (expand ps) s"
  by (simp add: regex_test_def match_seq_iff)


lemma expand_uuid_pattern:
  "expand uuid_pattern =
     replicate 8 hexdigit @ [Lit CHR ''-''] @ replicate 4 hexdigit @ [Lit CHR ''-''] @
     [Class [(CHR ''1'', CHR ''5'')]] @ replicate 3 hexdigit @ [Lit CHR ''-''] @
     [Class [(CHR ''8'', CHR ''9''), (CHR ''a'', CHR ''b'')]] @ replicate 3 hexdigit @
     [Lit CHR ''-''] @ replicate 12 hexdigit"
  by (simp add: expand_def uuid_pattern_def)

lemma length_expand_uuid_pattern: "length (expand uuid_pattern) = 36"
  by (simp add: expand_uuid_pattern)

lemma nth_singleton_append: "([x] @ ys) ! i = (if i = 0 then x else ys ! (i - 1))"
  by (cases i) simp_all

lemma nth_replicate_append:
  "(replicate n x @ ys) ! i = (if i < n then x else ys ! (i - n))"
  by (simp add: nth_append)

lemma atom_at:
  assumes "i < 36"
  shows "atom_matches True (expand uuid_pattern ! i) c = spec_char_ok i c"
proof -
  consider "i < 8" | "i = 8" | "8 < i" "i < 13" | "i = 13" | "i = 14" | "14 < i" "i < 18"
    | "i = 18" | "i = 19" | "19 < i" "i < 23" | "i = 23" | "23 < i" "i < 36"
    using assms by linarith
  then show ?thesis
  proof cases
    case 1
    then show ?thesis
      by (auto simp: expand_uuid_pattern nth_replicate_append spec_char_ok_def hexdigit_iff)
  next
    case 2
    then show ?thesis
      by (auto simp: expand_uuid_pattern nth_replicate_append nth_singleton_append spec_char_ok_def dash_iff)
  next
    case 3
    then show ?thesis
      by (auto simp: expand_uuid_pattern nth_replicate_append nth_singleton_append spec_char_ok_def hexdigit_iff)
  next
    case 4
    then show ?thesis
      by (auto simp: expand_uuid_pattern nth_replicate_append nth_singleton_append spec_char_ok_def dash_iff)
  next
    case 5
    then show ?thesis
      by (auto simp: expand_uuid_pattern nth_replicate_append nth_singleton_append spec_char_ok_def version_iff)
  next
    case 6
    then show ?thesis
      by (auto simp: expand_uuid_pattern nth_replicate_append nth_singleton_append spec_char_ok_def hexdigit_iff)
  next
    case 7
    then show ?thesis
      by (auto simp: expand_uuid_pattern nth_replicate_append nth_singleton_append spec_char_ok_def dash_iff)
  next
    case 8
    then show ?thesis
      by (auto simp: expand_uuid_pattern nth_replicate_append nth_singleton_append spec_char_ok_def variant_iff)
  next
    case 9
    then show ?thesis
      by (auto simp: expand_uuid_pattern nth_replicate_append nth_singleton_append spec_char_ok_def hexdigit_iff)
  next
    case 10
    then show ?thesis
      by (auto simp: expand_uuid_pattern nth_replicate_append nth_singleton_append spec_char_ok_def dash_iff)
  next
    case 11
    then show ?thesis
      by (auto simp: expand_uuid_pattern nth_replicate_append nth_singleton_append spec_char_ok_def hexdigit_iff)
  qed
qed

section \<open>The rate limiter: reachable states\<close>

lemma in_flight_iff: "in_flight st c \<longleftrightarrow> (\<exists>p. calls st c = InFlight p)"
  by (simp add: in_flight_def split: call.splits)

lemma limiter_inv_fresh: "limiter_inv fresh"
  by (simp add: limiter_inv_def fresh_def in_flight_def)

lemma limiter_inv_enter:
  assumes "ratelimit \<noteq> 0" "limiter_inv st" "\<not> in_flight st c"
  shows "limiter_inv (enter ratelimit c p st)"
proof (cases "apiLimited st")
  case True
  with assms show ?thesis
    by (auto simp: enter_def limiter_inv_def in_flight_def)
next
  case False
  with assms(2) have none: "\<And>c'. \<not> in_flight st c'" and t: "timers st = []"
    by (auto simp: limiter_inv_def)
  from False assms(1) have "enter ratelimit c p st =
      st\<lparr>apiLimited := True, calls := (calls st)(c := InFlight p), sent := sent st @ [(c, p)]\<rparr>"
    by (simp add: enter_def)
  with none t show ?thesis
    by (auto simp: limiter_inv_def in_flight_def split: if_splits)
qed

lemma limiter_inv_step:
  assumes "ratelimit \<noteq> 0" "limiter_inv st"
  shows "limiter_inv (step ratelimit ev st)"
proof (cases ev)
  case (Call c p)
  with assms show ?thesis
    by (auto simp: limiter_inv_enter in_flight_def split: call.splits)
next
  case (Wake c)
  with assms show ?thesis
    by (auto simp: limiter_inv_enter in_flight_def split: call.splits)
next
  case (Respond c r)
  show ?thesis
  proof (cases "calls st c")
    case (InFlight p)
    then have f: "in_flight st c" by (simp add: in_flight_def)
    with assms(2) have t: "timers st = []" and l: "apiLimited st"
      and u: "\<And>c'. in_flight st c' \<Longrightarrow> c' = c"
      by (auto simp: limiter_inv_def)
    have "\<not> in_flight (step ratelimit ev st) c'" for c'
      using u [of c'] InFlight Respond
      by (cases "c' = c") (auto simp: in_flight_def split: response.splits call.splits)
    moreover have "length (timers (step ratelimit ev st)) \<le> 1" "apiLimited (step ratelimit ev st)"
      using t l InFlight Respond by (auto split: response.splits)
    ultimately show ?thesis
      by (simp add: limiter_inv_def)
  qed (use assms Respond in auto)
next
  case (Fire i)
  show ?thesis
  proof (cases "i < length (timers st)")
    case True
    with assms(2) have t: "length (timers st) = 1" and none: "\<And>c. \<not> in_flight st c"
      by (auto simp: limiter_inv_def)
    from t True have "take i (timers st) @ drop (Suc i) (timers st) = []"
      by simp
    with True Fire have "timers (step ratelimit ev st) = []" "\<not> apiLimited (step ratelimit ev st)"
      "calls (step ratelimit ev st) = calls st"
      by simp_all
    with none show ?thesis
      by (simp add: limiter_inv_def in_flight_def)
  next
    case False
    with assms Fire show ?thesis by simp
  qed
qed

lemma limiter_inv_run:
  "ratelimit \<noteq> 0 \<Longrightarrow> limiter_inv st \<Longrightarrow> limiter_inv (run ratelimit evs st)"
  by (induction evs arbitrary: st) (simp_all add: limiter_inv_step)

lemma threw_step:
  assumes "calls st c = Threw err"
  shows "calls (step ratelimit ev st) c = Threw err \<and> sent_by c (step ratelimit ev st) = sent_by c st"
  using assms
  by (cases ev) (auto simp: enter_def sent_by_def split: call.splits response.splits)

lemma threw_run:
  "calls st c = Threw err \<Longrightarrow>
     calls (run ratelimit evs st) c = Threw err \<and> sent_by c (run ratelimit evs st) = sent_by c st"
proof (induction evs arbitrary: st)
  case Nil
  then show ?case by simp
next
  case (Cons ev evs)
  from threw_step [OF Cons.prems, of ratelimit ev]
  have a: "calls (step ratelimit ev st) c = Threw err"
    and b: "sent_by c (step ratelimit ev st) = sent_by c st"
    by simp_all
  from Cons.IH [OF a] b show ?case by simp
qed

section \<open>The aggregation pipeline\<close>

lemma getMojangAPI_calls:
  "calls (getMojangAPI ratelimit p r) 0 =
     (case r of Fails \<Rightarrow> Threw RequestError | Responds b \<Rightarrow> Returned b)"
  by (simp add: getMojangAPI_def fresh_def enter_def split: response.splits)

lemma getMojangAPI_sent: "sent (getMojangAPI ratelimit p r) = [(0, p)]"
  by (simp add: getMojangAPI_def fresh_def enter_def split: response.splits)

lemma getNameHistory_eq:
  "getNameHistory e u =
     ([Request (''https://api.mojang.com/user/profiles/'' @ u @ ''/names'')],
      case axios_get e (''https://api.mojang.com/user/profiles/'' @ u @ ''/names'') of
        Fails \<Rightarrow> Resolved None
      | Responds NoBody \<Rightarrow> Resolved None
      | Responds (NameList history) \<Rightarrow> Resolved (Some (array_sort by_changedToAt_desc history))
      | Responds OtherBody \<Rightarrow> Rejected (Some TypeError))"
  by (simp add: getNameHistory_def Let_def getMojangAPI_calls getMojangAPI_sent
      split: response.splits body.splits)

lemma and_str_path_join [simp]: "and_str (path_join a b) c = c"
  by (simp add: and_str_def path_join_def)

lemma mset_insert_sorted: "mset (insert_sorted cmp x ys) = add_mset x (mset ys)"
  by (induction ys) simp_all

lemma mset_array_sort: "mset (array_sort cmp xs) = mset xs"
  by (induction xs) (simp_all add: array_sort_def mset_insert_sorted)

lemma set_insert_sorted: "set (insert_sorted cmp x ys) = insert x (set ys)"
  by (induction ys) auto

lemma sorted_insert_sorted:
  assumes "sorted_wrt (\<lambda>a b. changedToAt_or0 b \<le> changedToAt_or0 a) ys"
  shows "sorted_wrt (\<lambda>a b. changedToAt_or0 b \<le> changedToAt_or0 a)
           (insert_sorted by_changedToAt_desc x ys)"
  using assms
proof (induction ys)
  case Nil
  then show ?case by simp
next
  case (Cons y ys)
  show ?case
  proof (cases "by_changedToAt_desc x y \<le> 0")
    case True
    then have "changedToAt_or0 y \<le> changedToAt_or0 x"
      by (simp add: by_changedToAt_desc_def)
    with Cons.prems True show ?thesis
      by (auto intro: order_trans)
  next
    case False
    then have "changedToAt_or0 x \<le> changedToAt_or0 y"
      by (simp add: by_changedToAt_desc_def)
    with Cons False show ?thesis
      by (auto simp: set_insert_sorted)
  qed
qed

lemma sorted_array_sort:
  "sorted_wrt (\<lambda>a b. changedToAt_or0 b \<le> changedToAt_or0 a) (array_sort by_changedToAt_desc xs)"
  by (induction xs) (simp_all add: array_sort_def sorted_insert_sorted)

lemma changedToAt_or0_None: "changedToAt x = None \<Longrightarrow> changedToAt_or0 x = 0"
  by (simp add: changedToAt_or0_def)

lemma changedToAt_or0_Some: "changedToAt x = Some t \<Longrightarrow> changedToAt_or0 x = t"
  by (simp add: changedToAt_or0_def)


lemma map_of_assign: "map_of (assign k v kvs) k' = (if k' = k then Some v else map_of kvs k')"
  by (induction kvs) auto

lemma getPlayerState_not_Pending: "getPlayerState e uuid \<noteq> Pending"
  by (simp add: getPlayerState_def Let_def split: option.splits sum.splits)

lemma getPlayerAdvancements_not_Pending: "getPlayerAdvancements e uuid \<noteq> Pending"
  by (simp add: getPlayerAdvancements_def Let_def split: option.splits sum.splits)

lemma getPlayerState_Resolved:
  "getPlayerState e uuid = Resolved s \<Longrightarrow>
     \<exists>d. s = JObj [(''merged'', mergeStats e d), (''source'', d)]"
  by (auto simp: getPlayerState_def Let_def split: option.splits sum.splits if_splits)

lemma getPlayerTotalData_not_Rejected: "snd (getPlayerTotalData e uuid) \<noteq> Rejected r"
  by (simp add: getPlayerTotalData_def Let_def split: promise.splits prod.splits)

lemma getPlayerTotalData_stats:
  "rejected (getPlayerState e uuid) \<Longrightarrow> getPlayerTotalData e uuid = ([], Resolved JNull)"
  by (simp add: getPlayerTotalData_def rejected_def split: promise.splits)

lemma getPlayerTotalData_data:
  assumes "rejected (snd (getPlayerData e uuid))"
  shows "snd (getPlayerTotalData e uuid) = Resolved JNull"
  using assms getPlayerState_not_Pending [of e uuid] getPlayerAdvancements_not_Pending [of e uuid]
  by (auto simp: getPlayerTotalData_def rejected_def Let_def split: promise.splits prod.splits)

lemma getPlayerData_load_fails:
  "isl (loadFromZlibCompressedFile e (data_file e uuid)) \<Longrightarrow>
     getPlayerData e uuid = ([], Rejected None)"
  by (auto simp: getPlayerData_def data_file_def Let_def split: sum.splits)

lemma getPlayerData_lookup_fails:
  "axios_get e (names_url uuid) = Fails \<Longrightarrow> snd (getPlayerData e uuid) = Rejected None"
  by (simp add: getPlayerData_def Let_def getNameHistory_eq names_url_def split: sum.splits)

lemma createPlayerData_miss:
  assumes "\<not> existsSync e (cache_file e uuid)" "\<not> existsSync e (body_file e uuid)"
  shows "createPlayerData e uuid banned =
     (case getPlayerTotalData e uuid of
        (eff, Rejected err) \<Rightarrow> (eff, Rejected err)
      | (eff, Pending) \<Rightarrow> (eff, Pending)
      | (eff, Resolved data) \<Rightarrow>
          if truthy data \<and> truthy (get_prop data ''stats'') \<and> truthy (get_prop data ''data'')
          then (eff @ fst (getPlayerAssets e (strip_dashes uuid) (playerpath_of e uuid)) @
                  [WriteJSON (cache_file e uuid)
                     (set_prop data ''data''
                        (JObj (assign ''banned'' (JBool banned) (own_props (get_prop data ''data'')))))],
                Resolved (set_prop data ''data''
                        (JObj (assign ''banned'' (JBool banned) (own_props (get_prop data ''data''))))))
          else (eff, Rejected None))"
  using assms
  by (simp add: createPlayerData_def cache_file_def body_file_def playerpath_of_def Let_def
      split: prod.splits promise.splits)

lemma createPlayerData_miss_null:
  assumes "\<not> existsSync e (cache_file e uuid)" "\<not> existsSync e (body_file e uuid)"
    and "snd (getPlayerTotalData e uuid) = Resolved JNull"
  shows "snd (createPlayerData e uuid banned) = Rejected None"
  using assms(3)
  by (auto simp: createPlayerData_miss [OF assms(1,2)] split: prod.splits promise.splits)


lemma getPlayerData_Resolved:
  assumes "snd (getPlayerData e uuid) = Resolved d"
  shows "\<exists>t h0 hs b timeStart timeLast.
           loadFromZlibCompressedFile e (data_file e uuid) = Inr t \<and>
           snd (getNameHistory e (strip_dashes uuid)) = Resolved (Some (h0 # hs)) \<and>
           bukkit t = Some b \<and> firstPlayed b = Some timeStart \<and> lastPlayed b = Some timeLast \<and>
           d = JObj
                 [(''seen'', JNum (of_int timeLast)),
                  (''time_start'', JNum (of_int timeStart)),
                  (''time_last'', JNum (of_int timeLast)),
                  (''time_lived'',
                     case ticksLived t of None \<Rightarrow> JStr [] | Some ticks \<Rightarrow> JNum (of_int ticks / 20)),
                  (''playername'', JStr (name h0)),
                  (''names'', JArr (map entry_js (h0 # hs))),
                  (''uuid_short'', JStr (strip_dashes uuid)),
                  (''lastUpdate'', JNum (of_int (now e))),
                  (''uuid'', JStr uuid)]"
  using assms
  by (auto simp: getPlayerData_def data_file_def Let_def
      split: sum.splits prod.splits promise.splits option.splits list.splits)

lemma getPlayerTotalData_Resolved:
  assumes "snd (getPlayerTotalData e uuid) = Resolved v" "v \<noteq> JNull"
  shows "\<exists>s advancements data.
           getPlayerState e uuid = Resolved s \<and>
           getPlayerAdvancements e uuid = Resolved advancements \<and>
           snd (getPlayerData e uuid) = Resolved data \<and>
           v = JObj [(''stats'', get_prop s ''merged''),
                     (''stats_source'', get_prop s ''source''),
                     (''advancements'', advancements),
                     (''data'', data)]"
  using assms
  by (auto simp: getPlayerTotalData_def Let_def split: promise.splits prod.splits)


lemma existsSync_ensureDir [simp]: "existsSync (e\<lparr>ensureDir_fails := f\<rparr>) p = existsSync e p"
  by (simp add: existsSync_def)

lemma readFileSync_ensureDir [simp]:
  "readFileSync (e\<lparr>ensureDir_fails := f\<rparr>) p = readFileSync e p"
  by (simp add: readFileSync_def)

lemma getPlayerState_ensureDir [simp]:
  "getPlayerState (e\<lparr>ensureDir_fails := f\<rparr>) uuid = getPlayerState e uuid"
  by (simp add: getPlayerState_def Let_def split: option.splits sum.splits)

lemma getPlayerAdvancements_ensureDir [simp]:
  "getPlayerAdvancements (e\<lparr>ensureDir_fails := f\<rparr>) uuid = getPlayerAdvancements e uuid"
  by (simp add: getPlayerAdvancements_def Let_def split: option.splits sum.splits)

lemma loadFromZlibCompressedFile_ensureDir [simp]:
  "loadFromZlibCompressedFile (e\<lparr>ensureDir_fails := f\<rparr>) p = loadFromZlibCompressedFile e p"
  by (simp add: loadFromZlibCompressedFile_def)

lemma getNameHistory_ensureDir [simp]:
  "getNameHistory (e\<lparr>ensureDir_fails := f\<rparr>) u = getNameHistory e u"
  by (simp add: getNameHistory_eq)

lemma getPlayerData_ensureDir [simp]:
  "getPlayerData (e\<lparr>ensureDir_fails := f\<rparr>) uuid = getPlayerData e uuid"
  by (simp add: getPlayerData_def Let_def
      split: sum.splits prod.splits promise.splits option.splits list.splits)

lemma getPlayerTotalData_ensureDir [simp]:
  "getPlayerTotalData (e\<lparr>ensureDir_fails := f\<rparr>) uuid = getPlayerTotalData e uuid"
  by (simp add: getPlayerTotalData_def Let_def split: promise.splits prod.splits)

lemma createPlayerData_ensureDir:
  "snd (createPlayerData (e\<lparr>ensureDir_fails := f\<rparr>) uuid banned) =
     snd (createPlayerData e uuid banned)"
  by (simp add: createPlayerData_def Let_def split: prod.splits promise.splits sum.splits)

lemma changedToAt_or0_eq:
  "changedToAt_or0 x = (case changedToAt x of None \<Rightarrow> 0 | Some t \<Rightarrow> t)"
  by (simp add: changedToAt_or0_def split: option.splits)

lemma getNameHistory_Resolved:
  assumes "snd (getNameHistory e u) = Resolved (Some h)"
  shows "\<exists>raw. axios_get e (''https://api.mojang.com/user/profiles/'' @ u @ ''/names'') =
                 Responds (NameList raw) \<and>
               h = array_sort by_changedToAt_desc raw"
  using assms
  by (auto simp: getNameHistory_eq split: response.splits body.splits)


section \<open>The claims\<close>

text \<open>
  C1. If both expected asset image files (avatar.png and body.png) already exist in the
  player's output directory, no asset download is performed; if either of the two is
  missing, all three downloads (avatar, body render, skin) are attempted.

  The code breaks this: \<^verbatim>\<open>existsSync\<close> receives the value of
  \<^verbatim>\<open>path.join(.., 'avatar.png') && path.join(.., 'body.png')\<close>, which is the second path, so
  only body.png is looked at. With a cached snapshot, body.png present and avatar.png
  missing, the run downloads nothing. (With avatar.png present and body.png missing it
  does start the three downloads.)
\<close>

theorem avatar_missing_no_download:
  "\<not> existsSync (demo_env [cache_entry, body_entry])
       (avatar_file (demo_env [cache_entry, body_entry]) demo_uuid) \<and>
   existsSync (demo_env [cache_entry, body_entry])
       (body_file (demo_env [cache_entry, body_entry]) demo_uuid) \<and>
   downloads (fst (createPlayerData (demo_env [cache_entry, body_entry]) demo_uuid False)) = [] \<and>
   snd (createPlayerData (demo_env [cache_entry, body_entry]) demo_uuid False) =
     Resolved cached_snapshot \<and>
   length (downloads (fst (createPlayerData (demo_env [cache_entry, avatar_entry]) demo_uuid False)))
     = 3"
  by code_simp

text \<open>
  C2. For every uuid and every banned value, \<^verbatim>\<open>createPlayerData(uuid, banned)\<close> yields a
  snapshot whose banned field equals the supplied value, even when the rest of the
  snapshot is loaded from a cache file written with a different banned value.

  The code breaks this on the early return: when body.png exists, the loaded snapshot is
  resolved as it is. A cache written with \<^verbatim>\<open>banned = false\<close> and both images present, called
  with \<^verbatim>\<open>banned = true\<close>, gives back \<^verbatim>\<open>banned = false\<close>. (Without the images the same cache
  is refreshed to \<^verbatim>\<open>true\<close>.)
\<close>

theorem cached_banned_not_refreshed:
  "snd (createPlayerData (demo_env [cache_entry, avatar_entry, body_entry]) demo_uuid True) =
     Resolved cached_snapshot \<and>
   get_prop (get_prop cached_snapshot ''data'') ''banned'' = JBool False \<and>
   get_prop (get_prop (settled_value
       (snd (createPlayerData (demo_env [cache_entry]) demo_uuid True))) ''data'') ''banned'' =
     JBool True"
  by code_simp

text \<open>
  C3. A missing or unreadable statistics file or advancements file does not fail the
  aggregation; only a failed player-state read or a failed name-history lookup does.

  Counterexample: the sample player without the statistics file (advancements, player
  file and name history all there, nothing cached, no images). The call is rejected.
\<close>

theorem missing_statistics_rejected:
  "fs (demo_env [advancements_entry, dat_entry demo_nbt])
      ''stats/123e4567-e89b-12d3-a456-426614174000.json'' = None \<and>
   resolved (getPlayerAdvancements (demo_env [advancements_entry, dat_entry demo_nbt]) demo_uuid) \<and>
   resolved (snd (getPlayerData (demo_env [advancements_entry, dat_entry demo_nbt]) demo_uuid)) \<and>
   snd (createPlayerData (demo_env [advancements_entry, dat_entry demo_nbt]) demo_uuid False) =
     Rejected None"
  by code_simp

text \<open>
  C3, amended. The statistics file is required like the player state and the name
  history: when \<^verbatim>\<open>getPlayerState\<close> rejects (directory not configured, file missing or not
  JSON), \<^verbatim>\<open>getPlayerTotalData\<close> returns \<^verbatim>\<open>null\<close>; with nothing cached and no body.png,
  \<^verbatim>\<open>createPlayerData\<close> is then rejected, as it is when the player file cannot be decoded or
  the name lookup fails; and a snapshot that such a call resolves always has its
  statistics.
\<close>

theorem statistics_file_required:
  "(rejected (getPlayerState e uuid) \<longrightarrow> snd (getPlayerTotalData e uuid) = Resolved JNull) \<and>
   (\<not> existsSync e (cache_file e uuid) \<and> \<not> existsSync e (body_file e uuid) \<and>
    (rejected (getPlayerState e uuid) \<or>
     isl (loadFromZlibCompressedFile e (data_file e uuid)) \<or>
     axios_get e (names_url uuid) = Fails) \<longrightarrow>
      snd (createPlayerData e uuid banned) = Rejected None) \<and>
   (\<not> existsSync e (cache_file e uuid) \<and> \<not> existsSync e (body_file e uuid) \<and>
    snd (createPlayerData e uuid banned) = Resolved d \<longrightarrow>
      resolved (getPlayerState e uuid) \<and> truthy (get_prop d ''stats''))"
proof (intro conjI impI)
  assume "rejected (getPlayerState e uuid)"
  then show "snd (getPlayerTotalData e uuid) = Resolved JNull"
    by (simp add: getPlayerTotalData_stats)
next
  assume a: "\<not> existsSync e (cache_file e uuid) \<and> \<not> existsSync e (body_file e uuid) \<and>
    (rejected (getPlayerState e uuid) \<or>
     isl (loadFromZlibCompressedFile e (data_file e uuid)) \<or>
     axios_get e (names_url uuid) = Fails)"
  then consider "rejected (getPlayerState e uuid)"
    | "isl (loadFromZlibCompressedFile e (data_file e uuid))"
    | "axios_get e (names_url uuid) = Fails"
    by blast
  then have "snd (getPlayerTotalData e uuid) = Resolved JNull"
  proof cases
    case 1
    then show ?thesis by (simp add: getPlayerTotalData_stats)
  next
    case 2
    then show ?thesis
      by (intro getPlayerTotalData_data) (simp add: getPlayerData_load_fails rejected_def)
  next
    case 3
    then show ?thesis
      by (intro getPlayerTotalData_data) (simp add: getPlayerData_lookup_fails rejected_def)
  qed
  with a show "snd (createPlayerData e uuid banned) = Rejected None"
    by (simp add: createPlayerData_miss_null)
next
  assume a: "\<not> existsSync e (cache_file e uuid) \<and> \<not> existsSync e (body_file e uuid) \<and>
    snd (createPlayerData e uuid banned) = Resolved d"
  then have miss: "\<not> existsSync e (cache_file e uuid)" "\<not> existsSync e (body_file e uuid)"
    and r: "snd (createPlayerData e uuid banned) = Resolved d"
    by simp_all
  from r obtain v where v: "snd (getPlayerTotalData e uuid) = Resolved v"
    and t: "truthy v" "truthy (get_prop v ''stats'')" "truthy (get_prop v ''data'')"
    and d: "d = set_prop v ''data''
                 (JObj (assign ''banned'' (JBool banned) (own_props (get_prop v ''data''))))"
    unfolding createPlayerData_miss [OF miss]
    by (auto split: prod.splits promise.splits if_splits)
  from t(1) have "v \<noteq> JNull" by auto
  from getPlayerTotalData_Resolved [OF v this] obtain s advancements data
    where s: "getPlayerState e uuid = Resolved s"
      and v': "v = JObj [(''stats'', get_prop s ''merged''),
                         (''stats_source'', get_prop s ''source''),
                         (''advancements'', advancements),
                         (''data'', data)]"
    by blast
  from s show "resolved (getPlayerState e uuid)"
    by (simp add: resolved_def)
  from t(2) d v' show "truthy (get_prop d ''stats'')"
    by (simp add: map_of_assign)
qed

theorem statistics_file_required_witness:
  "rejected (getPlayerState (demo_env [advancements_entry, dat_entry demo_nbt]) demo_uuid) \<and>
   snd (getPlayerTotalData (demo_env [advancements_entry, dat_entry demo_nbt]) demo_uuid) =
     Resolved JNull \<and>
   \<not> existsSync (demo_env [advancements_entry, dat_entry demo_nbt])
       (cache_file (demo_env [advancements_entry, dat_entry demo_nbt]) demo_uuid) \<and>
   \<not> existsSync (demo_env [advancements_entry, dat_entry demo_nbt])
       (body_file (demo_env [advancements_entry, dat_entry demo_nbt]) demo_uuid) \<and>
   snd (createPlayerData (demo_env [advancements_entry, dat_entry demo_nbt]) demo_uuid False) =
     Rejected None \<and>
   resolved (snd (createPlayerData (demo_env (sources demo_nbt)) demo_uuid False)) \<and>
   resolved (getPlayerState (demo_env (sources demo_nbt)) demo_uuid) \<and>
   truthy (get_prop (settled_value
     (snd (createPlayerData (demo_env (sources demo_nbt)) demo_uuid False))) ''stats'')"
proof -
  let ?e = "demo_env [advancements_entry, dat_entry demo_nbt]"
  let ?f = "demo_env (sources demo_nbt)"
  have h: "rejected (getPlayerState ?e demo_uuid)"
    "\<not> existsSync ?e (cache_file ?e demo_uuid)" "\<not> existsSync ?e (body_file ?e demo_uuid)"
    by code_simp+
  have g: "\<not> existsSync ?f (cache_file ?f demo_uuid)" "\<not> existsSync ?f (body_file ?f demo_uuid)"
    "snd (createPlayerData ?f demo_uuid False) =
       Resolved (settled_value (snd (createPlayerData ?f demo_uuid False)))"
    by code_simp+
  from h statistics_file_required [of ?e demo_uuid False]
  have "snd (getPlayerTotalData ?e demo_uuid) = Resolved JNull"
    "snd (createPlayerData ?e demo_uuid False) = Rejected None"
    by blast+
  moreover from g statistics_file_required
    [of ?f demo_uuid False "settled_value (snd (createPlayerData ?f demo_uuid False))"]
  have "resolved (getPlayerState ?f demo_uuid)"
    "truthy (get_prop (settled_value (snd (createPlayerData ?f demo_uuid False))) ''stats'')"
    by blast+
  moreover have "resolved (snd (createPlayerData ?f demo_uuid False))"
    by code_simp
  ultimately show ?thesis using h by blast
qed

text \<open>
  C4. Whenever \<^verbatim>\<open>createPlayerData\<close> cannot obtain the required binary player state or the
  name-history data, it fails with an AggregationError carrying the uuid and the stage
  that failed; a transient asset failure never fails the call.

  Counterexample: the sample player without the player file. The call is rejected by a
  bare \<^verbatim>\<open>reject()\<close>: the reason is \<^verbatim>\<open>undefined\<close>, no error object, no uuid, no stage.
\<close>

theorem missing_player_file_bare_reject:
  "isl (loadFromZlibCompressedFile (demo_env [stats_entry, advancements_entry])
          (data_file (demo_env [stats_entry, advancements_entry]) demo_uuid)) \<and>
   snd (createPlayerData (demo_env [stats_entry, advancements_entry]) demo_uuid False) =
     Rejected None"
  by code_simp

text \<open>
  C4, amended. With nothing cached and no body.png, when the player file cannot be
  decoded or the name lookup fails, \<^verbatim>\<open>createPlayerData\<close> is rejected without any reason
  (\<^verbatim>\<open>undefined\<close>); no rejection of a call that found no cache file carries a reason; and
  whether the asset directory can be made never changes how the call ends.
\<close>

theorem required_data_missing_bare_reject:
  "(\<not> existsSync e (cache_file e uuid) \<and> \<not> existsSync e (body_file e uuid) \<and>
    (isl (loadFromZlibCompressedFile e (data_file e uuid)) \<or>
     axios_get e (names_url uuid) = Fails) \<longrightarrow>
      snd (createPlayerData e uuid banned) = Rejected None) \<and>
   (\<not> existsSync e (cache_file e uuid) \<and> snd (createPlayerData e uuid banned) = Rejected r \<longrightarrow>
      r = None) \<and>
   snd (createPlayerData (e\<lparr>ensureDir_fails := f\<rparr>) uuid banned) =
     snd (createPlayerData e uuid banned)"
proof (intro conjI impI)
  assume a: "\<not> existsSync e (cache_file e uuid) \<and> \<not> existsSync e (body_file e uuid) \<and>
    (isl (loadFromZlibCompressedFile e (data_file e uuid)) \<or>
     axios_get e (names_url uuid) = Fails)"
  then have "rejected (snd (getPlayerData e uuid))"
    by (auto simp: getPlayerData_load_fails getPlayerData_lookup_fails rejected_def)
  then have "snd (getPlayerTotalData e uuid) = Resolved JNull"
    by (rule getPlayerTotalData_data)
  with a show "snd (createPlayerData e uuid banned) = Rejected None"
    by (simp add: createPlayerData_miss_null)
next
  assume a: "\<not> existsSync e (cache_file e uuid) \<and>
    snd (createPlayerData e uuid banned) = Rejected r"
  with getPlayerTotalData_not_Rejected [of e uuid] show "r = None"
    by (auto simp: createPlayerData_def cache_file_def playerpath_of_def Let_def
        split: prod.splits promise.splits if_splits)
next
  show "snd (createPlayerData (e\<lparr>ensureDir_fails := f\<rparr>) uuid banned) =
     snd (createPlayerData e uuid banned)"
    by (simp add: createPlayerData_ensureDir)
qed

theorem required_data_missing_bare_reject_witness:
  "\<not> existsSync (demo_env [stats_entry, advancements_entry])
       (cache_file (demo_env [stats_entry, advancements_entry]) demo_uuid) \<and>
   \<not> existsSync (demo_env [stats_entry, advancements_entry])
       (body_file (demo_env [stats_entry, advancements_entry]) demo_uuid) \<and>
   isl (loadFromZlibCompressedFile (demo_env [stats_entry, advancements_entry])
          (data_file (demo_env [stats_entry, advancements_entry]) demo_uuid)) \<and>
   snd (createPlayerData (demo_env [stats_entry, advancements_entry]) demo_uuid True) =
     Rejected None \<and>
   resolved (snd (createPlayerData
     ((demo_env (sources demo_nbt))\<lparr>ensureDir_fails := (\<lambda>p. True)\<rparr>) demo_uuid True))"
proof -
  let ?e = "demo_env [stats_entry, advancements_entry]"
  let ?f = "demo_env (sources demo_nbt)"
  have h: "\<not> existsSync ?e (cache_file ?e demo_uuid)" "\<not> existsSync ?e (body_file ?e demo_uuid)"
    "isl (loadFromZlibCompressedFile ?e (data_file ?e demo_uuid))"
    by code_simp+
  have g: "resolved (snd (createPlayerData ?f demo_uuid True))"
    by code_simp
  from h required_data_missing_bare_reject [of ?e demo_uuid True]
  have "snd (createPlayerData ?e demo_uuid True) = Rejected None"
    by blast
  moreover from g required_data_missing_bare_reject [of ?f demo_uuid True None "\<lambda>p. True"]
  have "resolved (snd (createPlayerData (?f\<lparr>ensureDir_fails := (\<lambda>p. True)\<rparr>) demo_uuid True))"
    by simp
  ultimately show ?thesis using h by blast
qed

text \<open>
  C5. In \<^verbatim>\<open>getMojangAPI\<close>, after a successful lookup the flag is scheduled to unlock after
  ratelimit times 1 base units (1000 ms); after a failed lookup after ratelimit times 3
  base units, and the error is surfaced to the caller without internal retry; with a
  rate limit of zero the lock-wait step is skipped.

  For a call whose request is in flight: a response appends the timer
  \<open>ratelimit * 1 * 1000\<close> and the call returns the body; a failure appends the timer
  \<open>ratelimit * 3 * 1000\<close> and the call has thrown, whatever happens afterwards, without
  having sent anything more. A pending timer that fires clears the flag. With a rate
  limit of zero a new call issues its request at once, whatever the flag.
\<close>

theorem unlock_schedule:
  "(calls st c = InFlight p \<longrightarrow>
      timers (step ratelimit (Respond c (Responds b)) st) = timers st @ [ratelimit * 1 * 1000] \<and>
      calls (step ratelimit (Respond c (Responds b)) st) c = Returned b \<and>
      timers (step ratelimit (Respond c Fails) st) = timers st @ [ratelimit * 3 * 1000] \<and>
      calls (run ratelimit evs (step ratelimit (Respond c Fails) st)) c = Threw RequestError \<and>
      sent_by c (run ratelimit evs (step ratelimit (Respond c Fails) st)) = sent_by c st) \<and>
   (i < length (timers st) \<longrightarrow> \<not> apiLimited (step ratelimit (Fire i) st)) \<and>
   (calls st c = Idle \<longrightarrow>
      calls (step 0 (Call c p) st) c = InFlight p \<and>
      sent (step 0 (Call c p) st) = sent st @ [(c, p)])"
proof -
  have "calls (run ratelimit evs (step ratelimit (Respond c Fails) st)) c = Threw RequestError \<and>
      sent_by c (run ratelimit evs (step ratelimit (Respond c Fails) st)) = sent_by c st"
    if "calls st c = InFlight p"
  proof -
    from that have a: "calls (step ratelimit (Respond c Fails) st) c = Threw RequestError"
      and b: "sent_by c (step ratelimit (Respond c Fails) st) = sent_by c st"
      by (simp_all add: sent_by_def)
    from threw_run [OF a, of ratelimit evs] b show ?thesis by simp
  qed
  then show ?thesis
    by (simp add: enter_def)
qed

theorem unlock_schedule_witness:
  "calls (run 2 [Call 0 ''u''] fresh) 0 = InFlight ''u'' \<and>
   timers (step 2 (Respond 0 (Responds NoBody)) (run 2 [Call 0 ''u''] fresh)) = [2000] \<and>
   timers (step 2 (Respond 0 Fails) (run 2 [Call 0 ''u''] fresh)) = [6000] \<and>
   calls (run 2 [Fire 0, Wake 0, Call 0 ''u'']
            (step 2 (Respond 0 Fails) (run 2 [Call 0 ''u''] fresh))) 0 = Threw RequestError \<and>
   sent_by 0 (run 2 [Fire 0, Wake 0, Call 0 ''u'']
            (step 2 (Respond 0 Fails) (run 2 [Call 0 ''u''] fresh))) = [''u''] \<and>
   \<not> apiLimited (step 2 (Fire 0) (run 2 [Call 0 ''u'', Respond 0 Fails] fresh)) \<and>
   apiLimited (run 0 [Call 0 ''u''] fresh) \<and>
   calls (run 0 [Call 0 ''u''] fresh) 1 = Idle \<and>
   calls (step 0 (Call 1 ''v'') (run 0 [Call 0 ''u''] fresh)) 1 = InFlight ''v''"
proof -
  let ?s = "run 2 [Call 0 ''u''] fresh"
  let ?t = "run 2 [Call 0 ''u'', Respond 0 Fails] fresh"
  let ?z = "run 0 [Call 0 ''u''] fresh"
  have h: "calls ?s 0 = InFlight ''u''" "0 < length (timers ?t)"
    "apiLimited ?z" "calls ?z 1 = Idle" "timers ?s = []" "sent_by 0 ?s = [''u'']"
    by code_simp+
  from h(1,5,6) unlock_schedule [of ?s 0 "''u''" 2 NoBody "[Fire 0, Wake 0, Call 0 ''u'']"]
  have "timers (step 2 (Respond 0 (Responds NoBody)) ?s) = [2000]"
    "timers (step 2 (Respond 0 Fails) ?s) = [6000]"
    "calls (run 2 [Fire 0, Wake 0, Call 0 ''u''] (step 2 (Respond 0 Fails) ?s)) 0 =
       Threw RequestError"
    "sent_by 0 (run 2 [Fire 0, Wake 0, Call 0 ''u''] (step 2 (Respond 0 Fails) ?s)) = [''u'']"
    by simp_all
  moreover from h(2) unlock_schedule [of ?t _ _ 2 _ _ 0]
  have "\<not> apiLimited (step 2 (Fire 0) ?t)"
    by blast
  moreover from h(4) unlock_schedule [of ?z 1 "''v''"]
  have "calls (step 0 (Call 1 ''v'') ?z) 1 = InFlight ''v''"
    by blast
  ultimately show ?thesis using h by blast
qed

text \<open>
  C6. \<^verbatim>\<open>getNameHistory\<close> returns the entries sorted by \<^verbatim>\<open>changedToAt\<close> descending, an entry
  without \<^verbatim>\<open>changedToAt\<close> counting as 0 and therefore last, and the playername of the
  snapshot is the name of the first entry after sorting.

  A list that \<^verbatim>\<open>getNameHistory\<close> returns is a rearrangement of the list the service sent,
  in descending order of \<^verbatim>\<open>changedToAt\<close> with 0 for a missing one, so that no entry with a
  positive \<^verbatim>\<open>changedToAt\<close> comes after an entry without one; and the object that
  \<^verbatim>\<open>getPlayerData\<close> resolves has that list as \<^verbatim>\<open>names\<close> and the name of its first entry as
  \<^verbatim>\<open>playername\<close>.
\<close>

theorem name_history_sorted:
  "(snd (getNameHistory e u) = Resolved (Some h) \<longrightarrow>
      sorted_wrt (\<lambda>a b. (case changedToAt b of None \<Rightarrow> 0 | Some t \<Rightarrow> t)
                        \<le> (case changedToAt a of None \<Rightarrow> 0 | Some t \<Rightarrow> t)) h \<and>
      (\<exists>raw. axios_get e (''https://api.mojang.com/user/profiles/'' @ u @ ''/names'') =
               Responds (NameList raw) \<and> mset h = mset raw) \<and>
      (\<forall>i j t. i < j \<and> j < length h \<and> changedToAt (h ! i) = None \<and>
                changedToAt (h ! j) = Some t \<longrightarrow> t \<le> 0)) \<and>
   (snd (getPlayerData e uuid) = Resolved d \<longrightarrow>
      (\<exists>h0 hs. snd (getNameHistory e (strip_dashes uuid)) = Resolved (Some (h0 # hs)) \<and>
         get_prop d ''playername'' = JStr (name h0) \<and>
         get_prop d ''names'' = JArr (map entry_js (h0 # hs))))"
proof (intro conjI impI)
  assume a: "snd (getNameHistory e u) = Resolved (Some h)"
  from getNameHistory_Resolved [OF a] obtain raw
    where raw: "axios_get e (''https://api.mojang.com/user/profiles/'' @ u @ ''/names'') =
                  Responds (NameList raw)"
      and h: "h = array_sort by_changedToAt_desc raw"
    by blast
  have s: "sorted_wrt (\<lambda>a b. changedToAt_or0 b \<le> changedToAt_or0 a) h"
    unfolding h by (rule sorted_array_sort)
  then show "sorted_wrt (\<lambda>a b. (case changedToAt b of None \<Rightarrow> 0 | Some t \<Rightarrow> t)
                        \<le> (case changedToAt a of None \<Rightarrow> 0 | Some t \<Rightarrow> t)) h"
    by (simp add: changedToAt_or0_eq)
  from raw h show "\<exists>raw. axios_get e (''https://api.mojang.com/user/profiles/'' @ u @ ''/names'') =
               Responds (NameList raw) \<and> mset h = mset raw"
    by (auto simp: mset_array_sort)
  show "\<forall>i j t. i < j \<and> j < length h \<and> changedToAt (h ! i) = None \<and>
                changedToAt (h ! j) = Some t \<longrightarrow> t \<le> 0"
  proof (intro allI impI)
    fix i j t
    assume b: "i < j \<and> j < length h \<and> changedToAt (h ! i) = None \<and> changedToAt (h ! j) = Some t"
    with s have "changedToAt_or0 (h ! j) \<le> changedToAt_or0 (h ! i)"
      by (simp add: sorted_wrt_iff_nth_less)
    with b show "t \<le> 0"
      by (simp add: changedToAt_or0_None changedToAt_or0_Some)
  qed
next
  assume "snd (getPlayerData e uuid) = Resolved d"
  from getPlayerData_Resolved [OF this]
  show "\<exists>h0 hs. snd (getNameHistory e (strip_dashes uuid)) = Resolved (Some (h0 # hs)) \<and>
         get_prop d ''playername'' = JStr (name h0) \<and>
         get_prop d ''names'' = JArr (map entry_js (h0 # hs))"
    by auto
qed

theorem name_history_sorted_witness:
  "snd (getNameHistory (demo_env (sources demo_nbt)) (strip_dashes demo_uuid)) =
     Resolved (Some [\<lparr>name = ''third'', changedToAt = Some 1500000000000\<rparr>,
                     \<lparr>name = ''second'', changedToAt = Some 1400000000000\<rparr>,
                     \<lparr>name = ''first'', changedToAt = None\<rparr>]) \<and>
   sorted_wrt (\<lambda>a b. (case changedToAt b of None \<Rightarrow> 0 | Some t \<Rightarrow> t)
                     \<le> (case changedToAt a of None \<Rightarrow> (0::int) | Some t \<Rightarrow> t))
     [\<lparr>name = ''third'', changedToAt = Some 1500000000000\<rparr>,
      \<lparr>name = ''second'', changedToAt = Some 1400000000000\<rparr>,
      \<lparr>name = ''first'', changedToAt = None\<rparr>] \<and>
   resolved (snd (getPlayerData (demo_env (sources demo_nbt)) demo_uuid)) \<and>
   get_prop (settled_value (snd (getPlayerData (demo_env (sources demo_nbt)) demo_uuid)))
     ''playername'' = JStr ''third''"
proof -
  let ?e = "demo_env (sources demo_nbt)"
  let ?h = "[\<lparr>name = ''third'', changedToAt = Some 1500000000000\<rparr>,
             \<lparr>name = ''second'', changedToAt = Some 1400000000000\<rparr>,
             \<lparr>name = ''first'', changedToAt = None\<rparr>]"
  let ?d = "settled_value (snd (getPlayerData ?e demo_uuid))"
  have h: "snd (getNameHistory ?e (strip_dashes demo_uuid)) = Resolved (Some ?h)"
    by code_simp
  have g: "snd (getPlayerData ?e demo_uuid) = Resolved ?d"
    by code_simp
  have r: "resolved (snd (getPlayerData ?e demo_uuid))"
    by code_simp
  from h name_history_sorted [of ?e "strip_dashes demo_uuid" ?h]
  have "sorted_wrt (\<lambda>a b. (case changedToAt b of None \<Rightarrow> 0 | Some t \<Rightarrow> t)
                     \<le> (case changedToAt a of None \<Rightarrow> (0::int) | Some t \<Rightarrow> t)) ?h"
    by blast
  moreover from g name_history_sorted [of ?e _ _ demo_uuid ?d]
  obtain h0 hs where "snd (getNameHistory ?e (strip_dashes demo_uuid)) = Resolved (Some (h0 # hs))"
    "get_prop ?d ''playername'' = JStr (name h0)"
    by blast
  with h have "get_prop ?d ''playername'' = JStr ''third''"
    by simp
  ultimately show ?thesis using h r by blast
qed




text \<open>
  C8. At any instant at most one outbound name-history request is in flight across all
  players: each caller sets the flag before issuing its request, and callers that find
  the flag set suspend for 10 time units and re-check until it is unlocked.

  Counterexample: a rate limit of zero. The first call sets the flag and sends; the
  second call finds the flag set and sends all the same; both requests are in flight.
\<close>

theorem two_requests_in_flight:
  "apiLimited (run 0 [Call 0 ''a''] fresh) \<and>
   in_flight (run 0 [Call 0 ''a'', Call 1 ''b''] fresh) 0 \<and>
   in_flight (run 0 [Call 0 ''a'', Call 1 ''b''] fresh) 1 \<and>
   sent (run 0 [Call 0 ''a'', Call 1 ''b''] fresh) = [(0, ''a''), (1, ''b'')]"
  by code_simp

text \<open>
  C8, amended. With a rate limit other than zero, in every state that calls, responses,
  wake-ups and timers can reach from a fresh instance, at most one request is in flight,
  and then the flag is set; a call that finds the flag set, on entry or on waking up,
  sends nothing and waits 10 ms; a call that wakes up and finds the flag clear sets it
  and sends. (With a rate limit of zero nothing waits.)
\<close>

theorem one_request_in_flight:
  assumes "ratelimit \<noteq> 0"
  shows "(in_flight (run ratelimit evs fresh) c \<and> in_flight (run ratelimit evs fresh) c' \<longrightarrow> c = c') \<and>
         (in_flight (run ratelimit evs fresh) c \<longrightarrow> apiLimited (run ratelimit evs fresh)) \<and>
         (apiLimited st \<and> calls st c = Idle \<longrightarrow>
            calls (step ratelimit (Call c p) st) c = Waiting p 10 \<and>
            sent (step ratelimit (Call c p) st) = sent st) \<and>
         (apiLimited st \<and> calls st c = Waiting p d \<longrightarrow>
            calls (step ratelimit (Wake c) st) c = Waiting p 10 \<and>
            sent (step ratelimit (Wake c) st) = sent st) \<and>
         (\<not> apiLimited st \<and> calls st c = Waiting p d \<longrightarrow>
            calls (step ratelimit (Wake c) st) c = InFlight p \<and>
            apiLimited (step ratelimit (Wake c) st))"
proof -
  have "limiter_inv (run ratelimit evs fresh)"
    using assms by (simp add: limiter_inv_run limiter_inv_fresh)
  then have "in_flight (run ratelimit evs fresh) c \<and> in_flight (run ratelimit evs fresh) c' \<longrightarrow> c = c'"
    and "in_flight (run ratelimit evs fresh) c \<longrightarrow> apiLimited (run ratelimit evs fresh)"
    unfolding limiter_inv_def by blast+
  moreover have "apiLimited st \<and> calls st c = Idle \<longrightarrow>
            calls (step ratelimit (Call c p) st) c = Waiting p 10 \<and>
            sent (step ratelimit (Call c p) st) = sent st"
    using assms by (simp add: enter_def)
  moreover have "apiLimited st \<and> calls st c = Waiting p d \<longrightarrow>
            calls (step ratelimit (Wake c) st) c = Waiting p 10 \<and>
            sent (step ratelimit (Wake c) st) = sent st"
    using assms by (simp add: enter_def)
  moreover have "\<not> apiLimited st \<and> calls st c = Waiting p d \<longrightarrow>
            calls (step ratelimit (Wake c) st) c = InFlight p \<and>
            apiLimited (step ratelimit (Wake c) st)"
    by (simp add: enter_def)
  ultimately show ?thesis by blast
qed

theorem one_request_in_flight_witness:
  "(1::nat) \<noteq> 0 \<and>
   in_flight (run 1 [Call 0 ''a'', Call 1 ''b''] fresh) 0 \<and>
   \<not> in_flight (run 1 [Call 0 ''a'', Call 1 ''b''] fresh) 1 \<and>
   apiLimited (run 1 [Call 0 ''a'', Call 1 ''b''] fresh) \<and>
   apiLimited (run 1 [Call 0 ''a''] fresh) \<and>
   calls (run 1 [Call 0 ''a''] fresh) 1 = Idle \<and>
   calls (step 1 (Call 1 ''b'') (run 1 [Call 0 ''a''] fresh)) 1 = Waiting ''b'' 10 \<and>
   calls (step 1 (Wake 1) (run 1 [Call 0 ''a'', Call 1 ''b''] fresh)) 1 = Waiting ''b'' 10 \<and>
   \<not> apiLimited (run 1 [Call 0 ''a'', Call 1 ''b'', Respond 0 (Responds NoBody), Fire 0] fresh) \<and>
   calls (step 1 (Wake 1)
     (run 1 [Call 0 ''a'', Call 1 ''b'', Respond 0 (Responds NoBody), Fire 0] fresh)) 1 =
     InFlight ''b''"
proof -
  let ?a = "run 1 [Call 0 ''a''] fresh"
  let ?b = "run 1 [Call 0 ''a'', Call 1 ''b''] fresh"
  let ?c = "run 1 [Call 0 ''a'', Call 1 ''b'', Respond 0 (Responds NoBody), Fire 0] fresh"
  have n: "(1::nat) \<noteq> 0" by simp
  have h: "in_flight ?b 0" "apiLimited ?a" "calls ?a 1 = Idle"
    "apiLimited ?b" "calls ?b 1 = Waiting ''b'' 10"
    "\<not> apiLimited ?c" "calls ?c 1 = Waiting ''b'' 10"
    by code_simp+
  from one_request_in_flight [OF n, of "[Call 0 ''a'', Call 1 ''b'']" 0 1] h(1)
  have "\<not> in_flight ?b 1" "apiLimited ?b"
    by auto
  moreover from one_request_in_flight [OF n, of _ _ _ ?a "''b''"] h(2,3)
  have "calls (step 1 (Call 1 ''b'') ?a) 1 = Waiting ''b'' 10"
    by blast
  moreover from one_request_in_flight [OF n, of _ 1 _ ?b "''b''" 10] h(4,5)
  have "calls (step 1 (Wake 1) ?b) 1 = Waiting ''b'' 10"
    by blast
  moreover from one_request_in_flight [OF n, of _ 1 _ ?c "''b''" 10] h(6,7)
  have "calls (step 1 (Wake 1) ?c) 1 = InFlight ''b''"
    by blast
  ultimately show ?thesis using h n by blast
qed

text \<open>
  C9. The uuid validator of \<^verbatim>\<open>getAllPlayers\<close> accepts exactly the strings in the canonical
  8-4-4-4-12 hexadecimal form whose version nibble is in 1..5 and whose variant nibble is
  among 8, 9, a, b, in either case, and rejects every other string.

  The test of the regular expression and the canonical form agree on every string.
\<close>

theorem uuid_test_canonical: "uuid_test s = canonical_uuid s"
  unfolding uuid_test_def regex_test_iff canonical_uuid_def list_all2_conv_all_nth
    length_expand_uuid_pattern
  by (auto simp: atom_at)

theorem uuid_test_canonical_witness:
  "canonical_uuid ''123E4567-e89b-12d3-A456-42661417400f'' \<and>
   uuid_test ''123E4567-e89b-12d3-A456-42661417400f'' \<and>
   \<not> canonical_uuid ''123e4567-e89b-62d3-a456-426614174000'' \<and>
   \<not> uuid_test ''123e4567-e89b-62d3-a456-426614174000'' \<and>
   \<not> canonical_uuid ''Notch'' \<and>
   \<not> uuid_test ''Notch''"
proof -
  have "canonical_uuid ''123E4567-e89b-12d3-A456-42661417400f''"
    "\<not> canonical_uuid ''123e4567-e89b-62d3-a456-426614174000''"
    "\<not> canonical_uuid ''Notch''"
    by code_simp+
  with uuid_test_canonical [of "''123E4567-e89b-12d3-A456-42661417400f''"]
    uuid_test_canonical [of "''123e4567-e89b-62d3-a456-426614174000''"]
    uuid_test_canonical [of "''Notch''"]
  show ?thesis by blast
qed

text \<open>
  C10. For some input state (no cache file, the snapshot build failing so that
  \<^verbatim>\<open>getPlayerTotalData\<close> returns \<^verbatim>\<open>null\<close>, body.png already in the player's output directory)
  \<^verbatim>\<open>createPlayerData\<close> resolves with \<^verbatim>\<open>null\<close> instead of rejecting.
\<close>

theorem createPlayerData_resolves_null:
  assumes "\<not> existsSync e (cache_file e uuid)"
    and "snd (getPlayerTotalData e uuid) = Resolved JNull"
    and "existsSync e (body_file e uuid)"
  shows "snd (createPlayerData e uuid banned) = Resolved JNull"
  using assms
  by (auto simp: createPlayerData_def cache_file_def body_file_def playerpath_of_def Let_def
      split: prod.splits promise.splits)

theorem createPlayerData_resolves_null_witness:
  "\<not> existsSync (demo_env [advancements_entry, dat_entry demo_nbt, body_entry])
       (cache_file (demo_env [advancements_entry, dat_entry demo_nbt, body_entry]) demo_uuid) \<and>
   snd (getPlayerTotalData (demo_env [advancements_entry, dat_entry demo_nbt, body_entry])
          demo_uuid) = Resolved JNull \<and>
   existsSync (demo_env [advancements_entry, dat_entry demo_nbt, body_entry])
       (body_file (demo_env [advancements_entry, dat_entry demo_nbt, body_entry]) demo_uuid) \<and>
   snd (createPlayerData (demo_env [advancements_entry, dat_entry demo_nbt, body_entry])
          demo_uuid False) = Resolved JNull"
proof -
  let ?e = "demo_env [advancements_entry, dat_entry demo_nbt, body_entry]"
  have h: "\<not> existsSync ?e (cache_file ?e demo_uuid)"
    "snd (getPlayerTotalData ?e demo_uuid) = Resolved JNull"
    "existsSync ?e (body_file ?e demo_uuid)"
    by code_simp+
  from createPlayerData_resolves_null [OF h, of False] h show ?thesis
    by blast
qed

end
